theory Spec2Isabelle
  imports Complex_Main
begin

section \<open>Data model\<close>

text \<open>
  The pipeline of \<^verbatim>\<open>core.py\<close> works on numpy arrays of float64 and on astropy tables.
  A float that is a number is modelled as a real; a cell that may hold not-a-number is a
  \<open>real option\<close> with \<open>None\<close> for NaN. A 2D array is the list of its rows. A table is
  the list of its rows in table order. Every exception the source can raise is a value
  of \<open>error\<close>, and a function that can raise returns \<open>error + 'a\<close>.
\<close>

type_synonym image = "real list list"

type_synonym cell = "real option"

type_synonym shift_record = "cell \<times> cell \<times> cell"

datatype error = ValueError | TypeError | UnboundLocalError | IndexError

record star =
  star_id :: nat
  xcentroid :: real
  ycentroid :: real
  peak :: real
  flux :: real

definition nrows :: "image \<Rightarrow> nat" where
  "nrows img = length img"

definition ncols :: "image \<Rightarrow> nat" where
  "ncols img = (case img of [] \<Rightarrow> 0 | row # _ \<Rightarrow> length row)"

section \<open>Float64 arithmetic\<close>

text \<open>\<^verbatim>\<open>np.round(x, 0)\<close> rounds to the nearest integer, a half to the even neighbour.\<close>

definition np_round :: "real \<Rightarrow> int" where
  "np_round x =
     (let f = \<lfloor>x\<rfloor>; d = x - of_int f
      in if d < 1 / 2 then f else if 1 / 2 < d then f + 1 else if even f then f else f + 1)"

text \<open>
  The arithmetic of the source is IEEE 754 binary64 with rounding to nearest, ties to
  even. \<open>fl64 x\<close> is the float64 nearest to the real \<open>x\<close>: with \<open>e\<close> the binary exponent
  of \<open>x\<close>, not below -1022 (under it the spacing stays that of the subnormal numbers),
  \<open>x\<close> is rounded to a multiple of \<open>2 powr (e - 52)\<close>. A result that reaches \<open>2 ^ 1024\<close>
  overflows to infinity, which is represented by the real \<open>f64_inf\<close>, larger than every
  finite float64: comparisons with it come out as they do with infinity. Subtraction,
  addition, multiplication, division and the square root of a float64 are the exact
  result rounded once. Star coordinates and pixel values are finite numbers.
\<close>

definition f64_inf :: real where
  "f64_inf = 2 ^ 1024"

definition fl64 :: "real \<Rightarrow> real" where
  "fl64 x =
     (if x = 0 then 0
      else (let q = max \<lfloor>log 2 \<bar>x\<bar>\<rfloor> (- 1022) - 52;
                r = of_int (np_round (x / 2 powr of_int q)) * 2 powr of_int q
            in if f64_inf \<le> \<bar>r\<bar> then sgn x * f64_inf else r))"

definition f64_sub :: "real \<Rightarrow> real \<Rightarrow> real" where
  "f64_sub a b = fl64 (a - b)"

definition f64_add :: "real \<Rightarrow> real \<Rightarrow> real" where
  "f64_add a b = fl64 (a + b)"

definition f64_mul :: "real \<Rightarrow> real \<Rightarrow> real" where
  "f64_mul a b = fl64 (a * b)"

definition f64_div :: "real \<Rightarrow> real \<Rightarrow> real" where
  "f64_div a b = fl64 (a / b)"

definition f64_sqrt :: "real \<Rightarrow> real" where
  "f64_sqrt a = (if f64_inf \<le> a then f64_inf else fl64 (sqrt a))"

text \<open>\<^verbatim>\<open>np.abs(np.sqrt((dx)**2 + (dy)**2))\<close>, the square being the product with itself.\<close>

definition np_distance :: "real \<Rightarrow> real \<Rightarrow> real" where
  "np_distance dx dy = \<bar>f64_sqrt (f64_add (f64_mul dx dx) (f64_mul dy dy))\<bar>"

section \<open>Star Matcher: \<^verbatim>\<open>calculate_shift\<close>\<close>

text \<open>Boolean-mask indexing \<^verbatim>\<open>a[match]\<close>: the entries of \<open>a\<close> where the mask is true.\<close>

definition mask_select :: "'a list \<Rightarrow> bool list \<Rightarrow> 'a list" where
  "mask_select a match = map fst (filter snd (zip a match))"

text \<open>
  One pass of the loop body for reference star \<open>s\<close>, in float64. \<^verbatim>\<open>np.min\<close> of an empty array
  raises ValueError. \<^verbatim>\<open>if distances[match] < 20\<close> takes the truth value of an array:
  with one entry it is that entry's comparison, with two or more numpy raises
  ValueError. A row that is not assigned keeps the NaN it was created with.
\<close>

definition shift_row :: "star \<Rightarrow> star list \<Rightarrow> error + shift_record" where
  "shift_row s stars2 =
     (let dx = map (\<lambda>t. f64_sub (xcentroid s) (xcentroid t)) stars2;
          dy = map (\<lambda>t. f64_sub (ycentroid s) (ycentroid t)) stars2;
          distances = map (\<lambda>(a, b). np_distance a b) (zip dx dy)
      in if distances = [] then Inl ValueError
         else
           (let match = map (\<lambda>d. d = Min (set distances)) distances
            in case (mask_select distances match, mask_select dx match, mask_select dy match) of
                 ([d], [a], [b]) \<Rightarrow>
                    if d < 20 then Inr (Some d, Some a, Some b) else Inr (None, None, None)
               | _ \<Rightarrow> Inl ValueError))"

fun shift_rows :: "star list \<Rightarrow> star list \<Rightarrow> error + shift_record list" where
  "shift_rows [] stars2 = Inr []"
| "shift_rows (s # ss) stars2 =
     (case shift_row s stars2 of
        Inl e \<Rightarrow> Inl e
      | Inr row \<Rightarrow> (case shift_rows ss stars2 of Inl e \<Rightarrow> Inl e | Inr rows \<Rightarrow> Inr (row # rows)))"

text \<open>
  The detector hands over a table or \<^verbatim>\<open>None\<close>. Subscripting \<^verbatim>\<open>None\<close> raises TypeError:
  for \<open>stars1\<close> at the first statement, for \<open>stars2\<close> inside the loop, which an empty
  \<open>stars1\<close> never enters.
\<close>

definition calculate_shift :: "star list option \<Rightarrow> star list option \<Rightarrow> error + shift_record list" where
  "calculate_shift stars1 stars2 =
     (case stars1 of
        None \<Rightarrow> Inl TypeError
      | Some t1 \<Rightarrow>
          (case stars2 of
             None \<Rightarrow> if t1 = [] then Inr [] else Inl TypeError
           | Some t2 \<Rightarrow> shift_rows t1 t2))"

section \<open>Frame Shifter: \<^verbatim>\<open>roll_image\<close>\<close>

text \<open>
  \<^verbatim>\<open>np.median\<close>: NaN for an empty array and for an array holding a NaN, otherwise the
  middle of the sorted values (the mean of the two middle ones for an even count).
\<close>

definition np_median :: "cell list \<Rightarrow> cell" where
  "np_median cs =
     (if cs = [] \<or> None \<in> set cs then None
      else (let xs = sort (map the cs); n = length xs
            in Some (if even n then (xs ! (n div 2 - 1) + xs ! (n div 2)) / 2
                     else xs ! (n div 2))))"

text \<open>
  \<^verbatim>\<open>np.roll\<close> along one axis: the entry at index \<open>i\<close> moves to \<open>(i + k) mod n\<close>.
  \<open>rotate m\<close> moves entries to the left by \<open>m\<close>.
\<close>

definition roll1 :: "int \<Rightarrow> 'a list \<Rightarrow> 'a list" where
  "roll1 k xs = rotate (nat ((- k) mod int (length xs))) xs"

definition np_roll :: "image \<Rightarrow> int \<times> int \<Rightarrow> image" where
  "np_roll img shift = map (roll1 (snd shift)) (roll1 (fst shift) img)"

text \<open>
  A comparison with NaN is false, so a NaN median sends the code to the \<^verbatim>\<open>else\<close>
  branch. Converting a NaN to an integer raises ValueError.
\<close>

definition roll_image :: "image \<Rightarrow> shift_record list \<Rightarrow> real \<Rightarrow> error + image" where
  "roll_image img diff threshold =
     (case np_median (map fst diff) of
        None \<Rightarrow> Inr img
      | Some offset \<Rightarrow>
          if offset \<ge> threshold then
            (case (np_median (map (\<lambda>d. fst (snd d)) diff), np_median (map (\<lambda>d. snd (snd d)) diff)) of
               (Some xshift, Some yshift) \<Rightarrow> Inr (np_roll img (np_round yshift, np_round xshift))
             | _ \<Rightarrow> Inl ValueError)
          else Inr img)"

section \<open>Registration Orchestrator: \<^verbatim>\<open>image_combiner\<close>\<close>

text \<open>
  A sequence of calls stops at the first one that raises.
\<close>

fun sequence_err :: "(error + 'a) list \<Rightarrow> error + 'a list" where
  "sequence_err [] = Inr []"
| "sequence_err (x # xs) =
     (case x of
        Inl e \<Rightarrow> Inl e
      | Inr v \<Rightarrow> (case sequence_err xs of Inl e \<Rightarrow> Inl e | Inr vs \<Rightarrow> Inr (v # vs)))"

text \<open>
  The Star Detector (\<^verbatim>\<open>find_stars\<close>, a wrapper of photutils' DAOStarFinder, which gives
  \<^verbatim>\<open>None\<close> when it finds nothing) and the Stack Combiner (\<^verbatim>\<open>median_combiner\<close>, a wrapper
  of ccdproc's Combiner) are library code: they are parameters here. After the first
  loop the variable \<open>s\<close> holds the detection of the last frame, and is unbound when
  there is no frame; the test \<^verbatim>\<open>s is None\<close> reads that variable.
\<close>

definition image_combiner ::
  "(image \<Rightarrow> real \<Rightarrow> real \<Rightarrow> star list option) \<Rightarrow> (image list \<Rightarrow> error + image) \<Rightarrow>
   image list \<Rightarrow> real \<Rightarrow> error + image option" where
  "image_combiner find_stars median_combiner im_data im_sig =
     (let stars = map (\<lambda>i. find_stars i im_sig 100000) im_data
      in if stars = [] then Inl UnboundLocalError
         else if last stars = None then Inr None
         else
           (case sequence_err (map (\<lambda>s. calculate_shift (stars ! 0) s) stars) of
              Inl e \<Rightarrow> Inl e
            | Inr all_diffs \<Rightarrow>
                (case sequence_err (map (\<lambda>(i, d). roll_image i d (1 / 2)) (zip im_data all_diffs)) of
                   Inl e \<Rightarrow> Inl e
                 | Inr images \<Rightarrow>
                     (case median_combiner images of Inl e \<Rightarrow> Inl e | Inr m \<Rightarrow> Inr (Some m)))))"

section \<open>FWHM Estimator: \<^verbatim>\<open>find_fwhm\<close>\<close>

text \<open>
  \<^verbatim>\<open>image[100:-100, 100:-100]\<close>: rows and columns from index 100 up to 100 before the
  end, nothing when a side is 200 or shorter.
\<close>

definition search_image :: "image \<Rightarrow> image" where
  "search_image img =
     map (\<lambda>row. take (length row - 200) (drop 100 row)) (take (length img - 200) (drop 100 img))"

text \<open>\<^verbatim>\<open>np.max\<close> raises ValueError on an array without entries.\<close>

definition np_max :: "image \<Rightarrow> error + real" where
  "np_max a = (if concat a = [] then Inl ValueError else Inr (Max (set (concat a))))"

text \<open>
  \<^verbatim>\<open>np.where(a == v)[0][0], np.where(a == v)[1][0]\<close>: the row and the column of the first
  entry equal to \<open>v\<close> in row-major order; subscripting an empty result raises IndexError.
\<close>

definition first_where :: "image \<Rightarrow> real \<Rightarrow> (nat \<times> nat) option" where
  "first_where a v =
     List.find (\<lambda>(r, c). a ! r ! c = v)
       (concat (map (\<lambda>r. map (\<lambda>c. (r, c)) [0..<length (a ! r)]) [0..<length a]))"

text \<open>
  A bound of a Python slice on a sequence of length \<open>n\<close>: a negative bound counts from
  the end, and every bound is clipped to the sequence.
\<close>

definition slice_bound :: "nat \<Rightarrow> int \<Rightarrow> nat" where
  "slice_bound n i = nat (if i < 0 then max 0 (i + int n) else min i (int n))"

text \<open>\<^verbatim>\<open>image[r-size:r+size, c-size:c+size]\<close>, read and overwritten with zeros.\<close>

definition cutout :: "image \<Rightarrow> int \<Rightarrow> int \<Rightarrow> int \<Rightarrow> image" where
  "cutout img r c sz =
     map (\<lambda>row. take (slice_bound (length row) (c + sz) - slice_bound (length row) (c - sz))
                    (drop (slice_bound (length row) (c - sz)) row))
         (take (slice_bound (length img) (r + sz) - slice_bound (length img) (r - sz))
               (drop (slice_bound (length img) (r - sz)) img))"

definition zero_cutout :: "image \<Rightarrow> int \<Rightarrow> int \<Rightarrow> int \<Rightarrow> image" where
  "zero_cutout img r c sz =
     map (\<lambda>i. if slice_bound (length img) (r - sz) \<le> i \<and> i < slice_bound (length img) (r + sz)
              then map (\<lambda>j. if slice_bound (length (img ! i)) (c - sz) \<le> j \<and>
                                j < slice_bound (length (img ! i)) (c + sz)
                             then 0 else img ! i ! j)
                       [0..<length (img ! i)]
              else img ! i)
         [0..<length img]"

text \<open>
  What a call hands back: the pair \<open>(fwhm, im_sig)\<close>, and with it the caller's array as
  the call leaves it (the cutouts are zeroed in the array that was passed in), the value
  of \<open>count\<close> and the \<^verbatim>\<open>break\<close> that ended the loop.
\<close>

datatype loop_exit = Fit_accepted | Budget_exhausted | Below_noise_floor

record fwhm_result =
  res_fwhm :: real
  res_im_sig :: real
  res_image :: image
  res_count :: nat
  res_exit :: loop_exit

datatype loop_step = Break fwhm_result | Again image nat real

text \<open>
  The end of a pass that rejected its candidate: the cutout is zeroed, the maximum of
  the search region is taken again, then come the two checks of \<open>count\<close> and of
  \<open>max_peak\<close>.
\<close>

definition rescan :: "image \<Rightarrow> int \<Rightarrow> int \<Rightarrow> int \<Rightarrow> nat \<Rightarrow> error + loop_step" where
  "rescan img r c sz count =
     (let img' = zero_cutout img r c sz
      in case np_max (search_image img') of
           Inl e \<Rightarrow> Inl e
         | Inr max_peak \<Rightarrow>
             if count > 100
             then Inr (Break \<lparr>res_fwhm = 0, res_im_sig = 0, res_image = img', res_count = count,
                               res_exit = Budget_exhausted\<rparr>)
             else if max_peak < 1000
             then Inr (Break \<lparr>res_fwhm = 0, res_im_sig = 0, res_image = img', res_count = count,
                               res_exit = Below_noise_floor\<rparr>)
             else Inr (Again img' count max_peak))"

text \<open>
  One pass of the \<^verbatim>\<open>while\<close> body. \<open>curve_fit\<close> (scipy) is library code, a parameter: from
  the cutout, \<open>size\<close> and the background median it gives the fitted \<open>(sig_x, sig_y)\<close>, that
  is \<^verbatim>\<open>popt[2:4]\<close>, or \<open>None\<close> when it raises, which the bare \<^verbatim>\<open>except\<close> turns into
  \<open>fwhm = 0\<close>. \<open>sigma_to_fwhm\<close> is astropy's constant \<^verbatim>\<open>gaussian_sigma_to_fwhm\<close>.
\<close>

definition iteration ::
  "(image \<Rightarrow> int \<Rightarrow> real \<Rightarrow> (real \<times> real) option) \<Rightarrow> real \<Rightarrow> real \<Rightarrow> int \<Rightarrow>
   image \<Rightarrow> nat \<Rightarrow> real \<Rightarrow> error + loop_step" where
  "iteration curve_fit sigma_to_fwhm median_val sz img count0 max_peak =
     (let count = count0 + 1
      in case first_where (search_image img) max_peak of
           None \<Rightarrow> Inl IndexError
         | Some (rs, cs) \<Rightarrow>
             (let r = int rs + 100; c = int cs + 100
              in if max_peak < 50000
                 then (case curve_fit (cutout img r c sz) sz median_val of
                         Some (sig_x, sig_y) \<Rightarrow>
                           (let im_sig = f64_div (f64_add sig_x sig_y) 2;
                                fwhm = f64_mul im_sig sigma_to_fwhm
                            in if fwhm > 2
                               then Inr (Break \<lparr>res_fwhm = fwhm, res_im_sig = im_sig,
                                                 res_image = img, res_count = count,
                                                 res_exit = Fit_accepted\<rparr>)
                               else rescan img r c sz count)
                       | None \<Rightarrow> rescan img r c sz count)
                 else rescan img r c sz count))"

text \<open>
  The \<^verbatim>\<open>while max_peak >= 0\<close> loop. When its test fails the code goes to
  \<^verbatim>\<open>return fwhm, im_sig\<close>; that happens only before the first pass (a later pass is
  reached with \<open>max_peak \<ge> 1000\<close>), where both names are unbound.
\<close>

function find_fwhm_loop ::
  "(image \<Rightarrow> int \<Rightarrow> real \<Rightarrow> (real \<times> real) option) \<Rightarrow> real \<Rightarrow> real \<Rightarrow> int \<Rightarrow>
   image \<Rightarrow> nat \<Rightarrow> real \<Rightarrow> error + fwhm_result" where
  "find_fwhm_loop curve_fit sigma_to_fwhm median_val sz img count max_peak =
     (if max_peak \<ge> 0
      then (case iteration curve_fit sigma_to_fwhm median_val sz img count max_peak of
              Inl e \<Rightarrow> Inl e
            | Inr (Break res) \<Rightarrow> Inr res
            | Inr (Again img' count' max_peak') \<Rightarrow>
                find_fwhm_loop curve_fit sigma_to_fwhm median_val sz img' count' max_peak')
      else Inl UnboundLocalError)"
  by pat_completeness auto
termination
  by (relation "measure (\<lambda>(curve_fit, g, med, sz, img, count, max_peak). 101 - count)")
     (auto simp: iteration_def rescan_def Let_def split: option.splits if_splits sum.splits)

declare find_fwhm_loop.simps [simp del]

definition find_fwhm ::
  "(image \<Rightarrow> real) \<Rightarrow> (image \<Rightarrow> int \<Rightarrow> real \<Rightarrow> (real \<times> real) option) \<Rightarrow> real \<Rightarrow>
   image \<Rightarrow> int \<Rightarrow> error + fwhm_result" where
  "find_fwhm sigma_clipped_median curve_fit sigma_to_fwhm img sz =
     (let median_val = sigma_clipped_median img
      in case np_max (search_image img) of
           Inl e \<Rightarrow> Inl e
         | Inr max_peak \<Rightarrow> find_fwhm_loop curve_fit sigma_to_fwhm median_val sz img 0 max_peak)"

section \<open>Star Selector: \<^verbatim>\<open>image_mask\<close>\<close>

text \<open>
  \<^verbatim>\<open>Table.remove_rows\<close> with a list of row indices: a negative index counts from the end,
  an index outside the table raises IndexError, a row named twice is removed once. The
  rows that stay keep their order.
\<close>

definition py_norm :: "nat \<Rightarrow> int \<Rightarrow> int" where
  "py_norm n i = (if i < 0 then i + int n else i)"

definition remove_rows :: "int list \<Rightarrow> 'a list \<Rightarrow> error + 'a list" where
  "remove_rows row_specifier tbl =
     (let n = length tbl
      in if list_all (\<lambda>i. - int n \<le> i \<and> i < int n) row_specifier
         then Inr (map fst (filter (\<lambda>(row, k). int k \<notin> set (map (py_norm n) row_specifier))
                                   (zip tbl [0..<n])))
         else Inl IndexError)"

text \<open>
  The two loops that fill the list \<open>d\<close>: row \<open>idxi\<close> is appended once for every row
  \<open>idxj\<close> of another id at a distance of at most \<open>5 * fwhm\<close>, and row \<open>idxp\<close> is appended
  when its peak is at most \<open>min_peak\<close>. The arithmetic is float64. Here \<open>dx\<close> and \<open>dy\<close> are
  numpy scalars, and \<^verbatim>\<open>(dx)**2\<close> on a scalar is the \<^verbatim>\<open>pow\<close> of the C library, a parameter:
  \<open>square\<close>.
\<close>

definition crowded_rows :: "(real \<Rightarrow> real) \<Rightarrow> star list \<Rightarrow> real \<Rightarrow> int list" where
  "crowded_rows square stars_tbl fwhm =
     concat (map (\<lambda>idxi. concat (map (\<lambda>idxj.
        if star_id (stars_tbl ! idxi) \<noteq> star_id (stars_tbl ! idxj)
        then (let threshold = f64_mul 5 fwhm;
                  dx = f64_sub (xcentroid (stars_tbl ! idxi)) (xcentroid (stars_tbl ! idxj));
                  dy = f64_sub (ycentroid (stars_tbl ! idxi)) (ycentroid (stars_tbl ! idxj));
                  distance = \<bar>f64_sqrt (f64_add (square dx) (square dy))\<bar>
              in if distance \<le> threshold then [int idxi] else [])
        else []) [0..<length stars_tbl])) [0..<length stars_tbl])"

definition faint_rows :: "star list \<Rightarrow> real \<Rightarrow> int list" where
  "faint_rows stars_tbl min_peak =
     concat (map (\<lambda>idxp. if peak (stars_tbl ! idxp) \<le> min_peak then [int idxp] else [])
                 [0..<length stars_tbl])"

text \<open>
  The output table has the columns x, y, flux, id and peak of the rows that stay; they
  are kept here as rows of the same record, x and y in \<open>xcentroid\<close> and \<open>ycentroid\<close>.
  \<open>table_sort\<close> stands for astropy's \<^verbatim>\<open>Table.sort('flux', reverse=True)\<close>, library code: it
  puts the rows in descending order of flux, and the order it gives to rows of equal
  flux is left open. \<open>hsize\<close> is \<open>(100 - 1) / 2\<close>; the bounds on the right and at the
  bottom are an integer minus a float.
\<close>

definition image_mask ::
  "(star list \<Rightarrow> star list) \<Rightarrow> (real \<Rightarrow> real) \<Rightarrow> image \<Rightarrow> star list \<Rightarrow> real \<Rightarrow> real \<Rightarrow> real \<Rightarrow>
   error + star list" where
  "image_mask table_sort square img sources fwhm bkg bkg_std =
     (let hsize = f64_div (100 - 1) 2;
          stars_tbl =
            filter (\<lambda>s. xcentroid s > hsize \<and>
                         xcentroid s < f64_sub (fl64 (of_int (int (ncols img) - 1))) hsize \<and>
                         ycentroid s > hsize \<and>
                         ycentroid s < f64_sub (fl64 (of_int (int (nrows img) - 1))) hsize)
                   sources;
          min_peak = f64_add bkg (f64_mul 10 bkg_std);
          d = crowded_rows square stars_tbl fwhm @ faint_rows stars_tbl min_peak
      in case remove_rows d stars_tbl of
           Inl e \<Rightarrow> Inl e
         | Inr kept \<Rightarrow>
             (let by_flux = table_sort kept
              in if length by_flux > 10
                 then remove_rows [- 5, - 4, - 3, - 2, - 1, 0, 1, 2, 3, 4] by_flux
                 else Inr by_flux))"

section \<open>Local Background Subtractor: \<^verbatim>\<open>bkg_sub\<close>\<close>

text \<open>
  The test on a row or column index \<open>k\<close>: strictly between \<open>p - side / 2\<close> and
  \<open>p + side / 2\<close>, with \<open>p\<close> the rounded integer coordinate and the bounds in float64.
\<close>

definition in_window :: "int \<Rightarrow> real \<Rightarrow> nat \<Rightarrow> bool" where
  "in_window p side k =
     (real k > f64_sub (fl64 (of_int p)) (f64_div side 2) \<and>
      real k < f64_add (fl64 (of_int p)) (f64_div side 2))"

text \<open>The two nested loops over the pixels, with \<^verbatim>\<open>image_lbs[r][c] -= bkg_median\<close>.\<close>

definition subtract_window :: "image \<Rightarrow> int \<times> int \<Rightarrow> real \<Rightarrow> real \<Rightarrow> image" where
  "subtract_window image_lbs pos_pix side bkg_median =
     map (\<lambda>r. if in_window (snd pos_pix) side r
              then map (\<lambda>c. if in_window (fst pos_pix) side c
                             then f64_sub (image_lbs ! r ! c) bkg_median else image_lbs ! r ! c)
                       [0..<length (image_lbs ! r)]
              else image_lbs ! r)
         [0..<length image_lbs]"

text \<open>
  The loop over the stars. The background estimate of a star (photutils' annulus of radii
  20 and 30 with astropy's sigma-clipped median) is library code, the parameter
  \<open>annulus_median\<close>; it is taken on \<open>image_lbs\<close>, the working copy as the stars before have
  left it. \<^verbatim>\<open>copy.deepcopy\<close> makes the working copy, so the caller's image is not written.
\<close>

fun bkg_sub_loop ::
  "(image \<Rightarrow> real \<times> real \<Rightarrow> real) \<Rightarrow> real \<Rightarrow> image \<Rightarrow> star list \<Rightarrow> image" where
  "bkg_sub_loop annulus_median fwhm image_lbs [] = image_lbs"
| "bkg_sub_loop annulus_median fwhm image_lbs (s # ss) =
     (let position = (xcentroid s, ycentroid s);
          bkg_median = annulus_median image_lbs position;
          pos_pix = (np_round (fst position), np_round (snd position));
          side = f64_mul 5 fwhm
      in bkg_sub_loop annulus_median fwhm (subtract_window image_lbs pos_pix side bkg_median) ss)"

definition bkg_sub ::
  "(image \<Rightarrow> real \<times> real \<Rightarrow> real) \<Rightarrow> image \<Rightarrow> star list \<Rightarrow> real \<Rightarrow> image" where
  "bkg_sub annulus_median img stars_tbl fwhm = bkg_sub_loop annulus_median fwhm img stars_tbl"

text \<open>The estimates \<open>bkg_median\<close> that the loop computes, in table order.\<close>

fun bkg_estimates ::
  "(image \<Rightarrow> real \<times> real \<Rightarrow> real) \<Rightarrow> real \<Rightarrow> image \<Rightarrow> star list \<Rightarrow> real list" where
  "bkg_estimates annulus_median fwhm image_lbs [] = []"
| "bkg_estimates annulus_median fwhm image_lbs (s # ss) =
     (let bkg_median = annulus_median image_lbs (xcentroid s, ycentroid s)
      in bkg_median #
         bkg_estimates annulus_median fwhm
           (subtract_window image_lbs (np_round (xcentroid s), np_round (ycentroid s))
              (f64_mul 5 fwhm) bkg_median) ss)"

section \<open>The specification's reading of the operations\<close>

text \<open>A table row for concrete inputs: id, x, y, peak, flux.\<close>

definition mk_star :: "nat \<Rightarrow> real \<Rightarrow> real \<Rightarrow> real \<Rightarrow> real \<Rightarrow> star" where
  "mk_star i a b p f = \<lparr>star_id = i, xcentroid = a, ycentroid = b, peak = p, flux = f\<rparr>"

text \<open>
  The Euclidean distance between a reference star and a target star, as float64
  arithmetic gives it: distances are compared, and ties arise, on these values.
\<close>

definition dist_to :: "star \<Rightarrow> star \<Rightarrow> real" where
  "dist_to s t =
     np_distance (f64_sub (xcentroid s) (xcentroid t)) (f64_sub (ycentroid s) (ycentroid t))"

text \<open>No ties: every reference star has exactly one target star at its minimum distance.\<close>

definition no_ties :: "star list \<Rightarrow> star list \<Rightarrow> bool" where
  "no_ties ref tgt =
     (\<forall>s \<in> set ref. length (filter (\<lambda>t. dist_to s t = Min (set (map (dist_to s) tgt))) tgt) = 1)"

text \<open>
  The record the specification asks for: the nearest target star (the first one at the
  minimum distance), recorded as (distance, dx, dy) with reference minus target when the
  distance is under 20, the sentinel otherwise.
\<close>

definition nearest_record :: "star \<Rightarrow> star list \<Rightarrow> shift_record" where
  "nearest_record s tgt =
     (let t = arg_min_list (dist_to s) tgt
      in if dist_to s t < 20
         then (Some (dist_to s t), Some (f64_sub (xcentroid s) (xcentroid t)),
               Some (f64_sub (ycentroid s) (ycentroid t)))
         else (None, None, None))"

text \<open>
  The Frame Shifter as the specification words it: the medians are taken over the valid
  records only, the sentinel records being left out.
\<close>

definition valid_records :: "shift_record list \<Rightarrow> shift_record list" where
  "valid_records diff = filter (\<lambda>(d, a, b). d \<noteq> None \<and> a \<noteq> None \<and> b \<noteq> None) diff"

definition roll_image_valid_median :: "image \<Rightarrow> shift_record list \<Rightarrow> real \<Rightarrow> error + image" where
  "roll_image_valid_median img diff threshold = roll_image img (valid_records diff) threshold"

text \<open>
  The Star Selector as the specification words it: stars within 49.5 px of a border are
  rejected; over the stars that are left, both members of every pair at most
  \<open>5 * fwhm\<close> apart and every star whose peak is at most \<open>bkg + 10 * bkg_std\<close> are
  rejected; the rest is sorted by descending flux and, when more than 10 are left, the
  first 5 and the last 5 are dropped.
\<close>

definition near_border :: "image \<Rightarrow> star \<Rightarrow> bool" where
  "near_border img s =
     (xcentroid s \<le> 49.5 \<or> f64_sub (fl64 (of_int (int (ncols img) - 1))) 49.5 \<le> xcentroid s \<or>
      ycentroid s \<le> 49.5 \<or> f64_sub (fl64 (of_int (int (nrows img) - 1))) 49.5 \<le> ycentroid s)"

definition separation :: "(real \<Rightarrow> real) \<Rightarrow> star \<Rightarrow> star \<Rightarrow> real" where
  "separation square s t =
     \<bar>f64_sqrt (f64_add (square (f64_sub (xcentroid s) (xcentroid t)))
                          (square (f64_sub (ycentroid s) (ycentroid t))))\<bar>"

definition star_selector_spec ::
  "(star list \<Rightarrow> star list) \<Rightarrow> (real \<Rightarrow> real) \<Rightarrow> image \<Rightarrow> star list \<Rightarrow> real \<Rightarrow> real \<Rightarrow> real \<Rightarrow>
   star list" where
  "star_selector_spec table_sort square img sources fwhm bkg bkg_std =
     (let edge = filter (\<lambda>s. \<not> near_border img s) sources;
          crowded = (\<lambda>s. list_ex (\<lambda>t. t \<noteq> s \<and> separation square s t \<le> f64_mul 5 fwhm) edge);
          faint = (\<lambda>s. peak s \<le> f64_add bkg (f64_mul 10 bkg_std));
          survivors = filter (\<lambda>s. \<not> (crowded s \<or> faint s)) edge;
          by_flux = table_sort survivors
      in if length by_flux > 10 then take (length by_flux - 10) (drop 5 by_flux) else by_flux)"

text \<open>
  For the Local Background Subtractor: the window of a star covers a pixel; the
  estimates of the stars that cover a pixel, in table order; and the value the
  specification gives an overlapped pixel, the original minus the estimate of the last
  star that covers it.
\<close>

definition covers :: "real \<Rightarrow> star \<Rightarrow> nat \<Rightarrow> nat \<Rightarrow> bool" where
  "covers fwhm s r c =
     (in_window (np_round (ycentroid s)) (f64_mul 5 fwhm) r \<and>
      in_window (np_round (xcentroid s)) (f64_mul 5 fwhm) c)"

definition covering_estimates :: "real \<Rightarrow> (star \<times> real) list \<Rightarrow> nat \<Rightarrow> nat \<Rightarrow> real list" where
  "covering_estimates fwhm sbs r c = map snd (filter (\<lambda>(s, b). covers fwhm s r c) sbs)"

definition last_writer_value :: "real \<Rightarrow> real \<Rightarrow> (star \<times> real) list \<Rightarrow> nat \<Rightarrow> nat \<Rightarrow> real" where
  "last_writer_value v fwhm sbs r c =
     (case covering_estimates fwhm sbs r c of [] \<Rightarrow> v | bs \<Rightarrow> f64_sub v (last bs))"

text \<open>
  Concrete inputs. \<open>flat_sky b\<close> is the background estimate on a frame whose annuli all
  hold the level \<open>b\<close>; \<open>sky63\<close> is such a frame of 63 by 63 pixels at level 10, on which
  the annuli of stars at (31, 31) and (32, 31) lie inside the frame and clear of the
  two windows. \<open>star201\<close> is a frame of 201 by 201 pixels at level 100 with one
  saturated pixel of 60000 in the middle, the only pixel of its search region.
  \<open>frame200\<close> is an empty frame of 200 by 200 pixels, \<open>sort_by_flux_desc\<close> a sort by
  descending flux, and \<open>f64_square\<close> the square as the rounded product.
\<close>

definition flat_sky :: "real \<Rightarrow> image \<Rightarrow> real \<times> real \<Rightarrow> real" where
  "flat_sky b image_lbs position = b"

definition sky63 :: image where
  "sky63 = replicate 63 (replicate 63 10)"

definition star201 :: image where
  "star201 = (replicate 201 (replicate 201 100))[100 := (replicate 201 100)[100 := 60000]]"





definition f64_square :: "real \<Rightarrow> real" where
  "f64_square a = f64_mul a a"

definition sort_by_flux_desc :: "star list \<Rightarrow> star list" where
  "sort_by_flux_desc tbl = rev (sort_key flux tbl)"

definition frame200 :: image where
  "frame200 = replicate 200 (replicate 200 0)"

text \<open>
  What the FWHM Estimator returns, by the \<^verbatim>\<open>break\<close> that ended the loop: a fitted width
  above 2, or \<open>(0, 0)\<close> with the counter at 101, or \<open>(0, 0)\<close> with the maximum left in the
  search region under 1000.
\<close>

definition exit_ok :: "fwhm_result \<Rightarrow> bool" where
  "exit_ok res =
     (case res_exit res of
        Fit_accepted \<Rightarrow> res_fwhm res > 2
      | Budget_exhausted \<Rightarrow> res_fwhm res = 0 \<and> res_im_sig res = 0 \<and> res_count res = 101
      | Below_noise_floor \<Rightarrow>
          res_fwhm res = 0 \<and> res_im_sig res = 0 \<and> res_count res \<le> 100 \<and>
          (case np_max (search_image (res_image res)) of Inl e \<Rightarrow> False | Inr m \<Rightarrow> m < 1000))"

section \<open>Properties of the circular translation\<close>

lemma roll1_length: "length (roll1 k xs) = length xs"
  by (simp add: roll1_def)

lemma roll1_inverse: "roll1 (- k) (roll1 k xs) = xs"
proof (cases "xs = []")
  case True
  then show ?thesis by (simp add: roll1_def)
next
  case False
  define n where "n = int (length xs)"
  have n: "0 < n" using False by (simp add: n_def)
  have a: "0 \<le> k mod n" and b: "0 \<le> (- k) mod n" using n by simp_all
  have "(k mod n + (- k) mod n) mod n = 0"
    by (metis add.right_inverse mod_add_eq mod_0)
  then have "int ((nat (k mod n) + nat ((- k) mod n)) mod length xs) = 0"
    using a b by (simp add: zmod_int n_def)
  then have "(nat (k mod n) + nat ((- k) mod n)) mod length xs = 0" by simp
  then show ?thesis
    by (simp add: roll1_def rotate_rotate n_def)
qed

lemma roll1_map: "roll1 k (map f xs) = map f (roll1 k xs)"
  by (simp add: roll1_def rotate_map)

text \<open>
  Claim C9. Translating an image circularly by \<open>(dy, dx)\<close> along (row, column) and then
  by \<open>(-dy, -dx)\<close> gives back the original image, pixel for pixel, for every image and
  every pair of integer offsets.
\<close>

theorem np_roll_inverse: "np_roll (np_roll img (dy, dx)) (- dy, - dx) = img"
proof -
  have "roll1 (- dy) (map (roll1 dx) (roll1 dy img)) = map (roll1 dx) (roll1 (- dy) (roll1 dy img))"
    by (simp add: roll1_map)
  then have "roll1 (- dy) (map (roll1 dx) (roll1 dy img)) = map (roll1 dx) img"
    by (simp only: roll1_inverse)
  then show ?thesis
    by (simp add: np_roll_def roll1_inverse comp_def)
qed

section \<open>Properties of float64 arithmetic\<close>

text \<open>A float64 that is an integer or a half below \<open>2 ^ 53\<close> in size is its own rounding.\<close>

lemma np_round_of_int: "np_round (of_int m) = m"
  by (simp add: np_round_def)

lemma fl64_dyadic:
  assumes "\<bar>k\<bar> < 2 ^ 53" and "j \<le> 1000"
  shows "fl64 (of_int k / 2 ^ j) = of_int k / 2 ^ j"
proof (cases "k = 0")
  case True
  then show ?thesis by (simp add: fl64_def)
next
  case False
  define x :: real where "x = of_int k / 2 ^ j"
  have k1: "1 \<le> \<bar>of_int k :: real\<bar>" using False by (simp flip: of_int_abs)
  have "\<bar>of_int k :: real\<bar> < of_int (2 ^ 53)"
    using assms(1) by (simp only: of_int_less_iff flip: of_int_abs)
  then have k2: "\<bar>of_int k :: real\<bar> < 2 ^ 53" by simp
  have ax: "\<bar>x\<bar> = \<bar>of_int k\<bar> / 2 ^ j" by (simp add: x_def abs_divide)
  have x0: "0 < \<bar>x\<bar>" using k1 by (simp add: ax)
  have lo: "2 powr (- real j) \<le> \<bar>x\<bar>"
    using k1 by (simp add: ax powr_minus powr_realpow divide_simps)
  have hi: "\<bar>x\<bar> < 2 powr (53 - real j)"
    using k2 by (simp add: ax powr_diff powr_realpow divide_simps)
  define e where "e = \<lfloor>log 2 \<bar>x\<bar>\<rfloor>"
  have "- real j \<le> log 2 \<bar>x\<bar>" using lo x0 by (subst le_log_iff) simp_all
  then have e0: "- int j \<le> e" unfolding e_def by linarith
  have "log 2 \<bar>x\<bar> < 53 - real j" using hi x0 by (subst log_less_iff) simp_all
  then have e1: "e \<le> 52 - int j" unfolding e_def by linarith
  define n where "n = nat (52 - int j - e)"
  have q: "max e (- 1022) - 52 = - int (n + j)" using e0 e1 assms(2) by (simp add: n_def)
  have p: "2 powr of_int (- int (n + j)) = 1 / (2::real) ^ (n + j)"
  proof -
    have "2 powr of_int (- int (n + j)) = (2::real) powr (- real (n + j))" by simp
    also have "\<dots> = 1 / 2 powr real (n + j)" by (simp only: powr_minus_divide)
    also have "\<dots> = 1 / 2 ^ (n + j)" by (simp only: powr_realpow zero_less_numeral)
    finally show ?thesis .
  qed
  have m: "x / (1 / 2 ^ (n + j)) = of_int (k * 2 ^ n)" by (simp add: x_def power_add)
  have r: "of_int (np_round (x / 2 powr of_int (- int (n + j)))) * 2 powr of_int (- int (n + j)) = x"
    unfolding p m np_round_of_int by (simp add: x_def power_add)
  have small: "\<not> f64_inf \<le> \<bar>x\<bar>"
  proof -
    have "(2::real) ^ 53 \<le> 2 ^ 1024" by (rule power_increasing) simp_all
    moreover have "\<bar>x\<bar> \<le> \<bar>of_int k\<bar>" by (simp add: ax divide_simps mult_le_cancel_left1)
    ultimately show ?thesis using k2 by (simp add: f64_inf_def)
  qed
  have "x \<noteq> 0" using x0 by auto
  then have "fl64 x = x"
    unfolding fl64_def Let_def e_def [symmetric] q r using small by simp
  then show ?thesis by (simp add: x_def)
qed

lemma fl64_of_int: "\<bar>k\<bar> < 2 ^ 53 \<Longrightarrow> fl64 (of_int k) = of_int k"
  using fl64_dyadic [of k 0] by simp

lemma fl64_numeral: "(numeral n :: int) < 2 ^ 53 \<Longrightarrow> fl64 (numeral n) = numeral n"
  using fl64_of_int [of "numeral n"] by simp

lemma fl64_neg_numeral:
  "(numeral n :: int) < 2 ^ 53 \<Longrightarrow> fl64 (- numeral n) = - numeral n"
  using fl64_of_int [of "- numeral n"] by simp

lemma fl64_0: "fl64 0 = 0"
  by (simp add: fl64_def)

lemma fl64_1: "fl64 1 = 1"
  using fl64_of_int [of 1] by simp

lemma fl64_half: "(numeral n :: int) < 2 ^ 53 \<Longrightarrow> fl64 (numeral n / 2) = numeral n / 2"
  using fl64_dyadic [of "numeral n" 1] by simp

lemma f64_sqrt_numeral:
  "(numeral n :: int) < 2 ^ 53 \<Longrightarrow> f64_sqrt (numeral n) = fl64 (sqrt (numeral n))"
proof -
  assume "(numeral n :: int) < 2 ^ 53"
  then have "of_int (numeral n) < (of_int (2 ^ 53) :: real)" by (simp only: of_int_less_iff)
  then have a: "(numeral n :: real) < 2 ^ 53" by (simp only: of_int_numeral of_int_power)
  have b: "(2::real) ^ 53 \<le> 2 ^ 1024" by (rule power_increasing) simp_all
  from a b have "(numeral n :: real) < 2 ^ 1024" by (rule less_le_trans)
  then have "\<not> f64_inf \<le> numeral n" unfolding f64_inf_def by (simp only: not_le)
  then show ?thesis by (simp only: f64_sqrt_def if_False)
qed

lemma f64_sqrt_0: "f64_sqrt 0 = 0"
  by (simp add: f64_sqrt_def f64_inf_def fl64_0)

lemmas f64_ops = f64_sub_def f64_add_def f64_mul_def f64_div_def np_distance_def
  f64_sqrt_numeral f64_sqrt_0 fl64_numeral fl64_neg_numeral fl64_0 fl64_1 fl64_half

section \<open>Properties of the Star Matcher\<close>

lemma mask_select_map: "mask_select (map f ts) (map P ts) = map f (filter P ts)"
  by (induction ts) (auto simp: mask_select_def)

lemma distances_eq:
  "map (\<lambda>(a, b). np_distance a b)
     (zip (map (\<lambda>t. f64_sub (xcentroid s) (xcentroid t)) tgt)
          (map (\<lambda>t. f64_sub (ycentroid s) (ycentroid t)) tgt))
   = map (dist_to s) tgt"
  by (induction tgt) (simp_all add: dist_to_def)

lemma match_eq:
  "map (\<lambda>d. d = m) (map (dist_to s) tgt) = map (\<lambda>t. dist_to s t = m) tgt"
  by simp

lemma shift_row_single:
  assumes "filter (\<lambda>t. dist_to s t = Min (set (map (dist_to s) tgt))) tgt = [t]"
  shows "shift_row s tgt =
     Inr (if dist_to s t < 20
          then (Some (dist_to s t), Some (f64_sub (xcentroid s) (xcentroid t)),
                Some (f64_sub (ycentroid s) (ycentroid t)))
          else (None, None, None))"
proof -
  have ne: "tgt \<noteq> []" using assms by auto
  show ?thesis
    unfolding shift_row_def Let_def distances_eq match_eq mask_select_map assms
    using ne by simp
qed

lemma arg_min_single:
  assumes "filter (\<lambda>t. f t = Min (set (map f tgt))) tgt = [t]"
  shows "arg_min_list f tgt = (t::star)"
proof -
  have ne: "tgt \<noteq> []" using assms by auto
  have "arg_min_list f tgt \<in> set tgt" using ne by (rule arg_min_list_in)
  moreover have "f (arg_min_list f tgt) = Min (set (map f tgt))"
    using ne by (simp add: f_arg_min_list_f)
  ultimately have "arg_min_list f tgt \<in> set (filter (\<lambda>t. f t = Min (set (map f tgt))) tgt)"
    by simp
  then show ?thesis unfolding assms by simp
qed

lemma shift_rows_no_ties:
  "no_ties ref tgt \<Longrightarrow> shift_rows ref tgt = Inr (map (\<lambda>s. nearest_record s tgt) ref)"
proof (induction ref)
  case Nil
  then show ?case by simp
next
  case (Cons s ss)
  from Cons.prems
  have one: "length (filter (\<lambda>t. dist_to s t = Min (set (map (dist_to s) tgt))) tgt) = 1"
    and rest: "no_ties ss tgt"
    by (simp_all add: no_ties_def)
  from one obtain t where t: "filter (\<lambda>t. dist_to s t = Min (set (map (dist_to s) tgt))) tgt = [t]"
    by (auto simp: length_Suc_conv)
  have "shift_row s tgt = Inr (nearest_record s tgt)"
    by (simp add: shift_row_single [OF t] nearest_record_def arg_min_single [OF t])
  then show ?case using Cons.IH [OF rest] by simp
qed

text \<open>
  Claim C6. For every reference table and every non-empty target table without ties,
  \<open>calculate_shift\<close> returns one row per reference star, in reference order. The row of a
  reference star holds (distance, dx, dy) of its nearest target star, with dx and dy
  reference minus target, when that distance is strictly under 20, and the NaN sentinel
  in all three fields otherwise. Distances, their minimum, ties and the comparison with
  20 are those of the float64 values the code computes. Reference (x=50, y=50) against
  target (x=53, y=54) gives (distance=5, dx=-3, dy=-4).
\<close>

theorem calculate_shift_nearest:
  "(tgt \<noteq> [] \<and> no_ties ref tgt \<longrightarrow>
      calculate_shift (Some ref) (Some tgt) = Inr (map (\<lambda>s. nearest_record s tgt) ref))
   \<and> calculate_shift (Some [mk_star 1 50 50 0 100]) (Some [mk_star 1 53 54 0 90])
       = Inr [(Some 5, Some (- 3), Some (- 4))]"
proof
  show "tgt \<noteq> [] \<and> no_ties ref tgt \<longrightarrow>
      calculate_shift (Some ref) (Some tgt) = Inr (map (\<lambda>s. nearest_record s tgt) ref)"
    by (simp add: calculate_shift_def shift_rows_no_ties)
  show "calculate_shift (Some [mk_star 1 50 50 0 100]) (Some [mk_star 1 53 54 0 90])
       = Inr [(Some 5, Some (- 3), Some (- 4))]"
    by (simp add: calculate_shift_def shift_row_def mask_select_def mk_star_def f64_ops)
qed

theorem calculate_shift_nearest_witness:
  "[mk_star 1 53 54 0 90, mk_star 2 0 170 0 90] \<noteq> []
   \<and> no_ties [mk_star 1 50 50 0 100, mk_star 2 11 110 0 100]
              [mk_star 1 53 54 0 90, mk_star 2 0 170 0 90]
   \<and> calculate_shift (Some [mk_star 1 50 50 0 100, mk_star 2 11 110 0 100])
                     (Some [mk_star 1 53 54 0 90, mk_star 2 0 170 0 90])
       = Inr [(Some 5, Some (- 3), Some (- 4)), (None, None, None)]"
proof -
  have nt: "no_ties [mk_star 1 50 50 0 100, mk_star 2 11 110 0 100]
              [mk_star 1 53 54 0 90, mk_star 2 0 170 0 90]"
    by (simp add: no_ties_def dist_to_def mk_star_def f64_ops)
  have rows: "map (\<lambda>s. nearest_record s [mk_star 1 53 54 0 90, mk_star 2 0 170 0 90])
                [mk_star 1 50 50 0 100, mk_star 2 11 110 0 100]
              = [(Some 5, Some (- 3), Some (- 4)), (None, None, None)]"
    by (simp add: nearest_record_def dist_to_def mk_star_def f64_ops)
  from calculate_shift_nearest
         [of "[mk_star 1 53 54 0 90, mk_star 2 0 170 0 90]"
             "[mk_star 1 50 50 0 100, mk_star 2 11 110 0 100]"]
  show ?thesis using nt rows by simp
qed

text \<open>
  Claim C8. The claim asks that a tie at the minimum distance is resolved to the target
  star of lowest index. The code takes the truth value of \<^verbatim>\<open>distances[match] < 20\<close>, an
  array with one entry per tied target star, and numpy raises ValueError for two or more.
  Reference (0, 0) against targets (3, 0) and (-3, 0), both at distance 3: the code
  raises, where the claim records (3, -3, 0).
\<close>

theorem calculate_shift_tie_raises:
  "calculate_shift (Some [mk_star 1 0 0 0 100]) (Some [mk_star 1 3 0 0 90, mk_star 2 (- 3) 0 0 90])
     = Inl ValueError
   \<and> nearest_record (mk_star 1 0 0 0 100) [mk_star 1 3 0 0 90, mk_star 2 (- 3) 0 0 90]
     = (Some 3, Some (- 3), Some 0)"
  by (simp add: calculate_shift_def shift_row_def mask_select_def nearest_record_def
      dist_to_def mk_star_def f64_ops)

section \<open>Properties of the Frame Shifter\<close>

lemma roll_image_sentinel:
  "None \<in> set (map fst diff) \<Longrightarrow> roll_image img diff threshold = Inr img"
  by (simp add: roll_image_def np_median_def)

lemma roll_image_all_valid:
  "valid_records diff = diff \<Longrightarrow> roll_image_valid_median img diff threshold = roll_image img diff threshold"
  by (simp add: roll_image_valid_median_def)

text \<open>
  Claim C2. The claim asks for the medians of the valid records only. The code takes
  \<^verbatim>\<open>np.median\<close> of the whole column, which is NaN as soon as one record is the sentinel;
  the test \<^verbatim>\<open>offset >= threshold\<close> is then false and the image comes back unmodified.
  With the records (5, -3, -4) and the sentinel, on a 3 by 3 image: the code returns the
  image as it is, where the median of the valid records (offset 5, dy -4, dx -3) rolls
  the rows by -4 and the columns by -3.
\<close>

theorem roll_image_sentinel_blocks_shift:
  "roll_image [[1, 2, 3], [4, 5, 6], [7, 8, 9]]
       [(Some 5, Some (- 3), Some (- 4)), (None, None, None)] (1 / 2)
     = Inr [[1, 2, 3], [4, 5, 6], [7, 8, 9]]
   \<and> roll_image_valid_median [[1, 2, 3], [4, 5, 6], [7, 8, 9]]
       [(Some 5, Some (- 3), Some (- 4)), (None, None, None)] (1 / 2)
     = Inr [[4, 5, 6], [7, 8, 9], [1, 2, 3]]"
  by (simp add: roll_image_valid_median_def valid_records_def roll_image_def np_median_def
      np_round_def np_roll_def roll1_def)

section \<open>Properties of the Registration Orchestrator\<close>

lemma image_combiner_null_iff:
  "im_data \<noteq> [] \<Longrightarrow>
     image_combiner find_stars median_combiner im_data im_sig = Inr None
       \<longleftrightarrow> find_stars (last im_data) im_sig 100000 = None"
  by (auto simp: image_combiner_def Let_def last_map split: sum.splits)

text \<open>
  Claim C1. The claim asks for a null result exactly when the detection of the reference
  frame (frame 0) is absent. The code tests the detection of the last frame. Two frames,
  the detector finding nothing on the all-zero frame and one star on the other: with the
  empty frame first the code goes on and raises TypeError in \<open>calculate_shift\<close>, where
  the claim returns null; with the empty frame last the code returns null, where the
  claim goes on.
\<close>

theorem image_combiner_tests_last_frame:
  "image_combiner (\<lambda>i sg pk. if i = [[0]] then None else Some [mk_star 1 0 0 5000 100])
       (\<lambda>images. Inr (hd images)) [[[0]], [[1]]] 3
     = Inl TypeError
   \<and> image_combiner (\<lambda>i sg pk. if i = [[0]] then None else Some [mk_star 1 0 0 5000 100])
       (\<lambda>images. Inr (hd images)) [[[1]], [[0]]] 3
     = Inr None"
  by (simp add: image_combiner_def calculate_shift_def)

section \<open>Properties of the Star Selector\<close>

lemma upt_shift: "[m..<m + length (x # xs)] = m # [Suc m..<Suc m + length xs]"
proof -
  have "m < m + length (x # xs)" by simp
  then have "[m..<m + length (x # xs)] = m # [Suc m..<m + length (x # xs)]"
    by (rule upt_conv_Cons)
  moreover have "m + length (x # xs) = Suc m + length xs" by simp
  ultimately show ?thesis by (simp only:)
qed

lemma index_filter_gen:
  "(\<forall>k<length xs. P (m + k) = Q (xs ! k)) \<Longrightarrow>
   map fst (filter (\<lambda>(row, k). P k) (zip xs [m..<m + length xs])) = filter Q xs"
proof (induction xs arbitrary: m)
  case Nil
  then show ?case by simp
next
  case (Cons x xs)
  have hd: "P m = Q x" using Cons.prems by force
  have tl: "\<forall>k<length xs. P (Suc m + k) = Q (xs ! k)" using Cons.prems by force
  show ?case unfolding upt_shift using Cons.IH [OF tl] hd by simp
qed

lemma index_filter:
  "(\<forall>k<length xs. P k = Q (xs ! k)) \<Longrightarrow>
   map fst (filter (\<lambda>(row, k). P k) (zip xs [0..<length xs])) = filter Q xs"
  using index_filter_gen [of xs P 0 Q] by simp

lemma index_interval_gen:
  "map fst (filter (\<lambda>(row, k). a \<le> k \<and> k < b) (zip xs [m..<m + length xs]))
     = drop (a - m) (take (b - m) xs)"
proof (induction xs arbitrary: m)
  case Nil
  then show ?case by simp
next
  case (Cons x xs)
  show ?case unfolding upt_shift using Cons.IH [of "Suc m"]
    by (auto simp: take_Cons' drop_Cons' Suc_diff_le)
qed

lemma remove_rows_indices:
  assumes "\<forall>i \<in> set d. 0 \<le> i \<and> i < int (length tbl)"
    and "\<forall>k<length tbl. (int k \<in> set d) = (\<not> Q (tbl ! k))"
  shows "remove_rows d tbl = Inr (filter Q tbl)"
proof -
  have ok: "list_all (\<lambda>i. - int (length tbl) \<le> i \<and> i < int (length tbl)) d"
    using assms(1) by (auto simp: list_all_iff)
  have nm: "map (py_norm (length tbl)) d = d"
    using assms(1) by (intro map_idI) (auto simp: py_norm_def)
  have "map fst (filter (\<lambda>(row, k). int k \<notin> set d) (zip tbl [0..<length tbl])) = filter Q tbl"
    by (rule index_filter) (use assms(2) in simp)
  then show ?thesis by (simp add: remove_rows_def Let_def ok nm)
qed

lemma remove_rows_trim:
  assumes "10 < length xs"
  shows "remove_rows [- 5, - 4, - 3, - 2, - 1, 0, 1, 2, 3, 4] xs
     = Inr (take (length xs - 10) (drop 5 xs))"
proof -
  let ?n = "length xs"
  have mem: "\<And>k. k < ?n \<Longrightarrow>
      (int k \<notin> set (map (py_norm ?n) [- 5, - 4, - 3, - 2, - 1, 0, 1, 2, 3, 4]))
        = (5 \<le> k \<and> k < ?n - 5)"
    using assms by (simp add: py_norm_def) arith
  have "filter (\<lambda>(row, k). int k \<notin> set (map (py_norm ?n) [- 5, - 4, - 3, - 2, - 1, 0, 1, 2, 3, 4]))
          (zip xs [0..<?n])
      = filter (\<lambda>(row, k). 5 \<le> k \<and> k < ?n - 5) (zip xs [0..<?n])"
  proof (rule filter_cong [OF refl])
    fix p assume "p \<in> set (zip xs [0..<?n])"
    then obtain row k where p: "p = (row, k)" and k: "k < ?n" by (auto simp: set_zip)
    show "(case p of (row, k) \<Rightarrow> int k \<notin> set (map (py_norm ?n) [- 5, - 4, - 3, - 2, - 1, 0, 1, 2, 3, 4]))
        = (case p of (row, k) \<Rightarrow> 5 \<le> k \<and> k < ?n - 5)"
      unfolding p prod.case by (rule mem [OF k])
  qed
  then have A: "map fst (filter (\<lambda>(row, k). int k \<notin> set (map (py_norm ?n) [- 5, - 4, - 3, - 2, - 1, 0, 1, 2, 3, 4]))
          (zip xs [0..<?n]))
      = map fst (filter (\<lambda>(row, k). 5 \<le> k \<and> k < ?n - 5) (zip xs [0..<?n]))"
    by (simp only:)
  have B: "map fst (filter (\<lambda>(row, k). 5 \<le> k \<and> k < ?n - 5) (zip xs [0..<?n]))
      = drop 5 (take (?n - 5) xs)"
    using index_interval_gen [of 5 "?n - 5" xs 0] by simp
  have C: "drop 5 (take (?n - 5) xs) = take (?n - 10) (drop 5 xs)"
    using assms by (simp add: drop_take)
  have ok: "list_all (\<lambda>i. - int ?n \<le> i \<and> i < int ?n) [- 5, - 4, - 3, - 2, - 1, 0, 1, 2, 3, 4]"
    using assms by auto
  show ?thesis
    unfolding remove_rows_def Let_def by (simp only: ok if_True A B C)
qed

lemma crowded_rows_mem:
  "x \<in> set (crowded_rows sq tbl fwhm) \<longleftrightarrow>
     (\<exists>i<length tbl. x = int i \<and>
        (\<exists>j<length tbl. star_id (tbl ! i) \<noteq> star_id (tbl ! j) \<and>
                         separation sq (tbl ! i) (tbl ! j) \<le> f64_mul 5 fwhm))"
proof -
  have "x \<in> set (crowded_rows sq tbl fwhm) \<longleftrightarrow>
     (\<exists>i \<in> {0..<length tbl}. \<exists>j \<in> {0..<length tbl}.
        star_id (tbl ! i) \<noteq> star_id (tbl ! j) \<and> separation sq (tbl ! i) (tbl ! j) \<le> f64_mul 5 fwhm \<and>
        x = int i)"
    by (force simp: crowded_rows_def separation_def Let_def split: if_splits)
  then show ?thesis unfolding Bex_def atLeastLessThan_iff by blast
qed

lemma faint_rows_mem:
  "x \<in> set (faint_rows tbl m) \<longleftrightarrow> (\<exists>i<length tbl. x = int i \<and> peak (tbl ! i) \<le> m)"
  by (auto simp: faint_rows_def split: if_splits)

lemma crowded_iff:
  assumes "distinct (map star_id tbl)" and "i < length tbl"
  shows "(\<exists>j<length tbl. star_id (tbl ! i) \<noteq> star_id (tbl ! j) \<and> separation sq (tbl ! i) (tbl ! j) \<le> th)
     \<longleftrightarrow> list_ex (\<lambda>t. t \<noteq> tbl ! i \<and> separation sq (tbl ! i) t \<le> th) tbl"
proof
  assume "\<exists>j<length tbl. star_id (tbl ! i) \<noteq> star_id (tbl ! j) \<and> separation sq (tbl ! i) (tbl ! j) \<le> th"
  then obtain j where j: "j < length tbl" "star_id (tbl ! i) \<noteq> star_id (tbl ! j)"
    "separation sq (tbl ! i) (tbl ! j) \<le> th" by blast
  have "tbl ! j \<in> set tbl" using j(1) by simp
  moreover have "tbl ! j \<noteq> tbl ! i" using j(2) by auto
  ultimately show "list_ex (\<lambda>t. t \<noteq> tbl ! i \<and> separation sq (tbl ! i) t \<le> th) tbl"
    unfolding list_ex_iff using j(3) by blast
next
  assume "list_ex (\<lambda>t. t \<noteq> tbl ! i \<and> separation sq (tbl ! i) t \<le> th) tbl"
  then obtain t where t: "t \<in> set tbl" "t \<noteq> tbl ! i" "separation sq (tbl ! i) t \<le> th"
    unfolding list_ex_iff by blast
  from t(1) obtain j where j: "j < length tbl" "tbl ! j = t" by (auto simp: in_set_conv_nth)
  have inj: "inj_on star_id (set tbl)" using assms(1) by (simp add: distinct_map)
  have "tbl ! i \<in> set tbl" using assms(2) by simp
  then have "star_id (tbl ! i) \<noteq> star_id t" using inj t(1,2) by (auto dest: inj_onD)
  then show "\<exists>j<length tbl. star_id (tbl ! i) \<noteq> star_id (tbl ! j) \<and> separation sq (tbl ! i) (tbl ! j) \<le> th"
    using j t(3) by blast
qed

text \<open>
  Claim C7. For every detection table whose ids are pairwise different, every image,
  FWHM, background and stddev, the output of \<open>image_mask\<close> is the table the rules give:
  the stars within 49.5 px of a border are rejected; over the stars that are left, both
  members of every pair at most 5 times FWHM apart and every star whose peak is at most
  background plus 10 times stddev are rejected, the two rejections united; the rest is
  sorted by descending flux and, only when more than 10 are left, the 5 brightest and
  the 5 faintest are removed. Products, sums and separations are the float64 values the
  code computes.
\<close>

theorem image_mask_selects:
  assumes "distinct (map star_id sources)"
  shows "image_mask table_sort sq img sources fwhm bkg bkg_std
       = Inr (star_selector_spec table_sort sq img sources fwhm bkg bkg_std)"
proof -
  define edge where "edge = filter (\<lambda>s. \<not> near_border img s) sources"
  define th where "th = f64_mul 5 fwhm"
  define mp where "mp = f64_add bkg (f64_mul 10 bkg_std)"
  define keep where
    "keep = (\<lambda>s. \<not> (list_ex (\<lambda>t. t \<noteq> s \<and> separation sq s t \<le> th) edge \<or> peak s \<le> mp))"
  have h: "f64_div (100 - 1) 2 = 49.5" by (simp add: f64_ops)
  have e: "filter (\<lambda>s. xcentroid s > f64_div (100 - 1) 2 \<and>
                         xcentroid s < f64_sub (fl64 (of_int (int (ncols img) - 1))) (f64_div (100 - 1) 2) \<and>
                         ycentroid s > f64_div (100 - 1) 2 \<and>
                         ycentroid s < f64_sub (fl64 (of_int (int (nrows img) - 1))) (f64_div (100 - 1) 2))
                   sources = edge"
    unfolding edge_def h by (rule filter_cong [OF refl]) (auto simp: near_border_def)
  have dist: "distinct (map star_id edge)"
    unfolding edge_def using assms by (rule distinct_map_filter)
  have rng: "\<forall>i \<in> set (crowded_rows sq edge fwhm @ faint_rows edge mp). 0 \<le> i \<and> i < int (length edge)"
    by (auto simp: crowded_rows_mem faint_rows_mem)
  have mem: "\<forall>k<length edge. (int k \<in> set (crowded_rows sq edge fwhm @ faint_rows edge mp))
                = (\<not> keep (edge ! k))"
  proof (intro allI impI)
    fix k assume k: "k < length edge"
    show "(int k \<in> set (crowded_rows sq edge fwhm @ faint_rows edge mp)) = (\<not> keep (edge ! k))"
      using k crowded_iff [OF dist k, of sq th]
      by (simp add: crowded_rows_mem faint_rows_mem keep_def th_def)
  qed
  have rr: "remove_rows (crowded_rows sq edge fwhm @ faint_rows edge mp) edge = Inr (filter keep edge)"
    by (rule remove_rows_indices [OF rng mem])
  show ?thesis
    unfolding image_mask_def star_selector_spec_def Let_def e
      edge_def [symmetric] th_def [symmetric] mp_def [symmetric] keep_def [symmetric] rr
    by (simp add: remove_rows_trim)
qed

lemma nrows_replicate: "nrows (replicate n row) = n"
  by (simp add: nrows_def)

lemma ncols_replicate: "0 < n \<Longrightarrow> ncols (replicate n row) = length row"
  by (cases n) (simp_all add: ncols_def)

lemma c7_eval:
  "star_selector_spec sort_by_flux_desc f64_square frame200
       [mk_star 1 100 100 5000 300, mk_star 2 102 100 5000 200, mk_star 3 60 100 5000 100,
        mk_star 4 30 100 5000 50, mk_star 5 140 100 1400 400, mk_star 6 80 100 1600 500]
       3 1000 50
     = [mk_star 6 80 100 1600 500, mk_star 3 60 100 5000 100]"
  by (simp add: star_selector_spec_def near_border_def frame200_def nrows_replicate ncols_replicate
      separation_def f64_square_def mk_star_def sort_by_flux_desc_def f64_ops)

theorem image_mask_selects_witness:
  "distinct (map star_id
       [mk_star 1 100 100 5000 300, mk_star 2 102 100 5000 200, mk_star 3 60 100 5000 100,
        mk_star 4 30 100 5000 50, mk_star 5 140 100 1400 400, mk_star 6 80 100 1600 500])
   \<and> image_mask sort_by_flux_desc f64_square frame200
       [mk_star 1 100 100 5000 300, mk_star 2 102 100 5000 200, mk_star 3 60 100 5000 100,
        mk_star 4 30 100 5000 50, mk_star 5 140 100 1400 400, mk_star 6 80 100 1600 500]
       3 1000 50
     = Inr [mk_star 6 80 100 1600 500, mk_star 3 60 100 5000 100]"
proof -
  have d: "distinct (map star_id
       [mk_star 1 100 100 5000 300, mk_star 2 102 100 5000 200, mk_star 3 60 100 5000 100,
        mk_star 4 30 100 5000 50, mk_star 5 140 100 1400 400, mk_star 6 80 100 1600 500])"
    by (simp add: mk_star_def)
  from image_mask_selects [OF d, of sort_by_flux_desc f64_square frame200 3 1000 50]
  show ?thesis using d by (simp only: c7_eval simp_thms)
qed

section \<open>Properties of the Local Background Subtractor\<close>

lemma length_subtract_window: "length (subtract_window img p sd b) = length img"
  by (simp add: subtract_window_def)

lemma length_row_subtract_window:
  "r < length img \<Longrightarrow> length (subtract_window img p sd b ! r) = length (img ! r)"
  by (simp add: subtract_window_def)

lemma pixel_subtract_window:
  "r < length img \<Longrightarrow> c < length (img ! r) \<Longrightarrow>
   subtract_window img p sd b ! r ! c =
     (if in_window (snd p) sd r \<and> in_window (fst p) sd c then f64_sub (img ! r ! c) b
      else img ! r ! c)"
  by (simp add: subtract_window_def)

lemma length_bkg_sub_loop: "length (bkg_sub_loop am fwhm img ss) = length img"
  by (induction ss arbitrary: img) (simp_all add: Let_def length_subtract_window)

lemma length_row_bkg_sub_loop:
  "r < length img \<Longrightarrow> length (bkg_sub_loop am fwhm img ss ! r) = length (img ! r)"
  by (induction ss arbitrary: img)
     (simp_all add: Let_def length_subtract_window length_row_subtract_window)

lemma pixel_bkg_sub_loop:
  "r < length img \<Longrightarrow> c < length (img ! r) \<Longrightarrow>
   bkg_sub_loop am fwhm img ss ! r ! c =
     foldl f64_sub (img ! r ! c) (covering_estimates fwhm (zip ss (bkg_estimates am fwhm img ss)) r c)"
proof (induction ss arbitrary: img)
  case Nil
  then show ?case by (simp add: covering_estimates_def)
next
  case (Cons s ss)
  let ?b = "am img (xcentroid s, ycentroid s)"
  let ?img' = "subtract_window img (np_round (xcentroid s), np_round (ycentroid s)) (f64_mul 5 fwhm) ?b"
  have r': "r < length ?img'" using Cons.prems by (simp add: length_subtract_window)
  have c': "c < length (?img' ! r)" using Cons.prems by (simp add: length_row_subtract_window)
  have "bkg_sub_loop am fwhm img (s # ss) ! r ! c = bkg_sub_loop am fwhm ?img' ss ! r ! c"
    by (simp add: Let_def)
  also have "\<dots> = foldl f64_sub (?img' ! r ! c)
        (covering_estimates fwhm (zip ss (bkg_estimates am fwhm ?img' ss)) r c)"
    by (rule Cons.IH [OF r' c'])
  also have "?img' ! r ! c = (if covers fwhm s r c then f64_sub (img ! r ! c) ?b else img ! r ! c)"
    using Cons.prems by (simp add: pixel_subtract_window covers_def)
  finally show ?case
    by (simp add: covering_estimates_def Let_def)
qed

lemma outside_all_windows:
  "\<forall>s \<in> set ss. \<not> covers fwhm s r c \<Longrightarrow> covering_estimates fwhm (zip ss bs) r c = []"
  by (auto simp: covering_estimates_def filter_empty_conv dest: set_zip_leftD)

lemma c3_estimates:
  "bkg_estimates (flat_sky 10) 1 sky63 [mk_star 1 31 31 5000 100, mk_star 2 32 31 5000 90] = [10, 10]"
  by (simp add: flat_sky_def)

text \<open>
  Claim C3, as stated, fails where two windows overlap. On the flat frame \<open>sky63\<close>, with
  stars at (31, 31) and (32, 31) and FWHM 1, both windows cover pixel (31, 31) and both
  estimates are 10: the code leaves 10 - 10 - 10 = -10 there, where the claim gives the
  original minus the later estimate only, 0.
\<close>

theorem bkg_sub_overlap_counterexample:
  "bkg_sub (flat_sky 10) sky63 [mk_star 1 31 31 5000 100, mk_star 2 32 31 5000 90] 1 ! 31 ! 31
     = - 10
   \<and> last_writer_value (sky63 ! 31 ! 31) 1
       (zip [mk_star 1 31 31 5000 100, mk_star 2 32 31 5000 90]
            (bkg_estimates (flat_sky 10) 1 sky63
               [mk_star 1 31 31 5000 100, mk_star 2 32 31 5000 90])) 31 31
     = 0"
proof
  show "bkg_sub (flat_sky 10) sky63 [mk_star 1 31 31 5000 100, mk_star 2 32 31 5000 90] 1 ! 31 ! 31
     = - 10"
    by (simp add: bkg_sub_def sky63_def flat_sky_def mk_star_def pixel_subtract_window
        length_subtract_window length_row_subtract_window np_round_def in_window_def f64_ops)
  show "last_writer_value (sky63 ! 31 ! 31) 1
       (zip [mk_star 1 31 31 5000 100, mk_star 2 32 31 5000 90]
            (bkg_estimates (flat_sky 10) 1 sky63
               [mk_star 1 31 31 5000 100, mk_star 2 32 31 5000 90])) 31 31
     = 0"
    unfolding c3_estimates
    by (simp add: last_writer_value_def covering_estimates_def covers_def mk_star_def sky63_def
        np_round_def in_window_def f64_ops)
qed

text \<open>
  Claim C3, amended. \<open>bkg_sub\<close> returns an image of the same shape in which, for each star
  in table order, the scalar background estimate of that star (taken on the working copy
  as the stars before have left it) is subtracted, in float64, from every pixel strictly
  inside the square window of side 5 times FWHM centred on the star's rounded position.
  The subtractions accumulate: a pixel holds the original value with the estimates of
  all the stars whose windows cover it subtracted one after the other, in table order. A
  pixel outside every window holds the original value.
\<close>

theorem bkg_sub_accumulates:
  assumes "r < length img" and "c < length (img ! r)"
  shows "bkg_sub am img stars fwhm ! r ! c
       = foldl f64_sub (img ! r ! c)
           (covering_estimates fwhm (zip stars (bkg_estimates am fwhm img stars)) r c)
     \<and> length (bkg_sub am img stars fwhm) = length img
     \<and> length (bkg_sub am img stars fwhm ! r) = length (img ! r)
     \<and> ((\<forall>s \<in> set stars. \<not> covers fwhm s r c) \<longrightarrow> bkg_sub am img stars fwhm ! r ! c = img ! r ! c)"
proof -
  have px: "bkg_sub am img stars fwhm ! r ! c
       = foldl f64_sub (img ! r ! c)
           (covering_estimates fwhm (zip stars (bkg_estimates am fwhm img stars)) r c)"
    unfolding bkg_sub_def by (rule pixel_bkg_sub_loop [OF assms])
  have out: "(\<forall>s \<in> set stars. \<not> covers fwhm s r c) \<longrightarrow> bkg_sub am img stars fwhm ! r ! c = img ! r ! c"
    unfolding px by (simp add: outside_all_windows)
  show ?thesis
    using px out assms(1)
    by (simp add: bkg_sub_def length_bkg_sub_loop length_row_bkg_sub_loop)
qed

theorem bkg_sub_accumulates_witness:
  "31 < length sky63 \<and> 31 < length (sky63 ! 31)
   \<and> bkg_sub (flat_sky 10) sky63 [mk_star 1 31 31 5000 100, mk_star 2 32 31 5000 90] 1 ! 31 ! 31
       = foldl f64_sub 10 [10, 10]
   \<and> 0 < length sky63 \<and> 0 < length (sky63 ! 0)
   \<and> \<not> covers 1 (mk_star 1 31 31 5000 100) 0 0 \<and> \<not> covers 1 (mk_star 2 32 31 5000 90) 0 0
   \<and> bkg_sub (flat_sky 10) sky63 [mk_star 1 31 31 5000 100, mk_star 2 32 31 5000 90] 1 ! 0 ! 0
       = 10"
proof -
  have a: "31 < length sky63" "31 < length (sky63 ! 31)" by (simp_all add: sky63_def)
  have b: "0 < length sky63" "0 < length (sky63 ! 0)" by (simp_all add: sky63_def)
  have cov: "covering_estimates 1
       (zip [mk_star 1 31 31 5000 100, mk_star 2 32 31 5000 90] [10, 10]) 31 31 = [10, 10]"
    by (simp add: covering_estimates_def covers_def mk_star_def np_round_def in_window_def f64_ops)
  have nc1: "\<not> covers 1 (mk_star 1 31 31 5000 100) 0 0"
    and nc2: "\<not> covers 1 (mk_star 2 32 31 5000 90) 0 0"
    by (simp_all add: covers_def mk_star_def np_round_def in_window_def f64_ops)
  have nc: "\<forall>s \<in> set [mk_star 1 31 31 5000 100, mk_star 2 32 31 5000 90]. \<not> covers 1 s 0 0"
    using nc1 nc2 by simp
  have v: "sky63 ! 31 ! 31 = 10" "sky63 ! 0 ! 0 = 10" by (simp_all add: sky63_def)
  from bkg_sub_accumulates [OF a, of "flat_sky 10" "[mk_star 1 31 31 5000 100, mk_star 2 32 31 5000 90]" 1]
  have one: "bkg_sub (flat_sky 10) sky63 [mk_star 1 31 31 5000 100, mk_star 2 32 31 5000 90] 1 ! 31 ! 31
       = foldl f64_sub 10 [10, 10]"
    unfolding c3_estimates cov v by (rule conjunct1)
  from bkg_sub_accumulates [OF b, of "flat_sky 10" "[mk_star 1 31 31 5000 100, mk_star 2 32 31 5000 90]" 1]
  have two: "bkg_sub (flat_sky 10) sky63 [mk_star 1 31 31 5000 100, mk_star 2 32 31 5000 90] 1 ! 0 ! 0
       = 10"
    using nc unfolding v by blast
  show ?thesis using a b nc1 nc2 one two by (simp only: simp_thms)
qed

section \<open>Properties of the FWHM Estimator\<close>

lemma rescan_Again:
  "rescan img r c sz count = Inr (Again img' count' mp') \<Longrightarrow> count' = count \<and> count \<le> 100"
  by (auto simp: rescan_def Let_def split: sum.splits if_splits)

lemma length_zero_cutout: "length (zero_cutout img r c sz) = length img"
  by (simp add: zero_cutout_def)

lemma row_length_zero_cutout:
  "i < length img \<Longrightarrow> length (zero_cutout img r c sz ! i) = length (img ! i)"
  by (simp add: zero_cutout_def)

lemma shape_zero_cutout: "map length (zero_cutout img r c sz) = map length img"
  by (rule nth_equalityI) (simp_all add: length_zero_cutout row_length_zero_cutout)

lemma pixel_zero_cutout:
  "i < length img \<Longrightarrow> j < length (img ! i) \<Longrightarrow>
   zero_cutout img r c sz ! i ! j =
     (if slice_bound (length img) (r - sz) \<le> i \<and> i < slice_bound (length img) (r + sz) \<and>
         slice_bound (length (img ! i)) (c - sz) \<le> j \<and> j < slice_bound (length (img ! i)) (c + sz)
      then 0 else img ! i ! j)"
  by (simp add: zero_cutout_def)

lemma shape_search_image:
  "map length (search_image img) = map (\<lambda>n. n - 200) (take (length img - 200) (drop 100 (map length img)))"
  by (simp add: search_image_def take_map drop_map comp_def min_def)

lemma empty_concat_shape: "concat a = [] \<longleftrightarrow> (\<forall>n \<in> set (map length a). n = 0)"
  by (induction a) auto

lemma search_image_empty_cong:
  "map length img' = map length img \<Longrightarrow>
   concat (search_image img') = [] \<longleftrightarrow> concat (search_image img) = []"
proof -
  assume sh: "map length img' = map length img"
  then have "length img' = length img" by (metis length_map)
  then have "map length (search_image img') = map length (search_image img)"
    using sh by (simp only: shape_search_image)
  then show ?thesis by (simp only: empty_concat_shape)
qed

lemma np_max_rescan:
  "concat (search_image img) \<noteq> [] \<Longrightarrow>
   np_max (search_image (zero_cutout img r c sz))
     = Inr (Max (set (concat (search_image (zero_cutout img r c sz)))))"
  using search_image_empty_cong [OF shape_zero_cutout, of img r c sz]
  by (simp add: np_max_def)

lemma first_where_found:
  assumes "concat a \<noteq> []"
  shows "\<exists>p. first_where a (Max (set (concat a))) = Some p"
proof -
  have "Max (set (concat a)) \<in> set (concat a)" using assms by (intro Max_in) simp_all
  then obtain row where row: "row \<in> set a" and m: "Max (set (concat a)) \<in> set row" by auto
  from row obtain r where r: "r < length a" "a ! r = row" by (auto simp: in_set_conv_nth)
  from m obtain c where c: "c < length row" "row ! c = Max (set (concat a))"
    by (auto simp: in_set_conv_nth)
  have "(r, c) \<in> set (concat (map (\<lambda>r. map (\<lambda>c. (r, c)) [0..<length (a ! r)]) [0..<length a]))"
    using r c by (auto intro!: bexI [where x = r])
  moreover have "a ! r ! c = Max (set (concat a))" using r c by simp
  ultimately have "List.find (\<lambda>(r, c). a ! r ! c = Max (set (concat a)))
       (concat (map (\<lambda>r. map (\<lambda>c. (r, c)) [0..<length (a ! r)]) [0..<length a])) \<noteq> None"
    unfolding find_None_iff by blast
  then show ?thesis by (auto simp: first_where_def)
qed

lemma rescan_cases:
  assumes "concat (search_image img) \<noteq> []" and "count \<le> 101"
  shows "(\<exists>res. rescan img r c sz count = Inr (Break res) \<and> res_count res = count \<and> exit_ok res) \<or>
         (\<exists>img' mp'. rescan img r c sz count = Inr (Again img' count mp') \<and> count \<le> 100 \<and>
              1000 \<le> mp' \<and> concat (search_image img') \<noteq> [] \<and>
              mp' = Max (set (concat (search_image img'))))"
proof -
  define img' where "img' = zero_cutout img r c sz"
  define M where "M = Max (set (concat (search_image img')))"
  have ne: "concat (search_image img') \<noteq> []"
    using assms(1) search_image_empty_cong [OF shape_zero_cutout, of img r c sz]
    by (simp add: img'_def)
  have mx: "np_max (search_image img') = Inr M"
    unfolding M_def img'_def by (rule np_max_rescan [OF assms(1)])
  show ?thesis
  proof (cases "count > 100")
    case True
    then have c: "count = 101" using assms(2) by simp
    have "rescan img r c sz count =
        Inr (Break \<lparr>res_fwhm = 0, res_im_sig = 0, res_image = img', res_count = count,
                     res_exit = Budget_exhausted\<rparr>)"
      unfolding rescan_def Let_def img'_def [symmetric] mx using True by simp
    then show ?thesis using c by (simp add: exit_ok_def)
  next
    case False
    show ?thesis
    proof (cases "M < 1000")
      case True
      have "rescan img r c sz count =
          Inr (Break \<lparr>res_fwhm = 0, res_im_sig = 0, res_image = img', res_count = count,
                       res_exit = Below_noise_floor\<rparr>)"
        unfolding rescan_def Let_def img'_def [symmetric] mx using False True by simp
      then show ?thesis using False True by (simp add: exit_ok_def mx)
    next
      case nf: False
      have "rescan img r c sz count = Inr (Again img' count M)"
        unfolding rescan_def Let_def img'_def [symmetric] mx using False nf by simp
      moreover have "count \<le> 100" using False by simp
      moreover have "1000 \<le> M" using nf by simp
      ultimately show ?thesis using ne M_def by blast
    qed
  qed
qed

lemma iteration_cases:
  assumes "concat (search_image img) \<noteq> []" and "max_peak = Max (set (concat (search_image img)))"
    and "count \<le> 100"
  shows "(\<exists>res. iteration fit g med sz img count max_peak = Inr (Break res) \<and>
              res_count res = count + 1 \<and> exit_ok res) \<or>
         (\<exists>img' mp'. iteration fit g med sz img count max_peak = Inr (Again img' (count + 1) mp') \<and>
              count + 1 \<le> 100 \<and> 1000 \<le> mp' \<and> concat (search_image img') \<noteq> [] \<and>
              mp' = Max (set (concat (search_image img'))))"
proof -
  from first_where_found [OF assms(1)] obtain rs cs
    where fw: "first_where (search_image img) max_peak = Some (rs, cs)"
    unfolding assms(2) by (cases) auto
  have c: "count + 1 \<le> 101" using assms(3) by simp
  note rc = rescan_cases [OF assms(1) c, of "int rs + 100" "int cs + 100" sz]
  show ?thesis
  proof (cases "max_peak < 50000")
    case False
    then have "iteration fit g med sz img count max_peak = rescan img (int rs + 100) (int cs + 100) sz (count + 1)"
      by (simp add: iteration_def fw)
    then show ?thesis using rc by simp
  next
    case True
    show ?thesis
    proof (cases "fit (cutout img (int rs + 100) (int cs + 100) sz) sz med")
      case None
      then have "iteration fit g med sz img count max_peak = rescan img (int rs + 100) (int cs + 100) sz (count + 1)"
        using True by (simp add: iteration_def fw)
      then show ?thesis using rc by simp
    next
      case (Some p)
      obtain sx sy where p: "p = (sx, sy)" by (cases p)
      show ?thesis
      proof (cases "f64_mul (f64_div (f64_add sx sy) 2) g > 2")
        case True': True
        then have "iteration fit g med sz img count max_peak =
          Inr (Break \<lparr>res_fwhm = f64_mul (f64_div (f64_add sx sy) 2) g,
                       res_im_sig = f64_div (f64_add sx sy) 2, res_image = img,
                       res_count = count + 1, res_exit = Fit_accepted\<rparr>)"
          using True Some p by (simp add: iteration_def fw Let_def)
        then show ?thesis using True' by (simp add: exit_ok_def)
      next
        case False
        then have "iteration fit g med sz img count max_peak = rescan img (int rs + 100) (int cs + 100) sz (count + 1)"
          using True Some p by (simp add: iteration_def fw Let_def)
        then show ?thesis using rc by simp
      qed
    qed
  qed
qed

lemma loop_total:
  "concat (search_image img) \<noteq> [] \<Longrightarrow> max_peak = Max (set (concat (search_image img))) \<Longrightarrow>
   0 \<le> max_peak \<Longrightarrow> count \<le> 100 \<Longrightarrow>
   \<exists>res. find_fwhm_loop fit g med sz img count max_peak = Inr res \<and>
         count < res_count res \<and> res_count res \<le> 101 \<and> exit_ok res"
proof (induction fit g med sz img count max_peak rule: find_fwhm_loop.induct)
  case (1 fit g med sz img count max_peak)
  from iteration_cases [OF "1.prems"(1,2,4), of fit g med sz]
  show ?case
  proof (elim disjE exE conjE)
    fix res
    assume "iteration fit g med sz img count max_peak = Inr (Break res)"
      "res_count res = count + 1" "exit_ok res"
    then show ?thesis using "1.prems" by (subst find_fwhm_loop.simps) simp
  next
    fix img' mp'
    assume it: "iteration fit g med sz img count max_peak = Inr (Again img' (count + 1) mp')"
      and c: "count + 1 \<le> 100" and m: "1000 \<le> mp'" and ne: "concat (search_image img') \<noteq> []"
      and mx: "mp' = Max (set (concat (search_image img')))"
    have m0: "0 \<le> mp'" using m by simp
    from "1.IH" [OF "1.prems"(3) it refl ne mx m0 c]
    obtain res where "find_fwhm_loop fit g med sz img' (count + 1) mp' = Inr res"
      "count + 1 < res_count res" "res_count res \<le> 101" "exit_ok res" by auto
    then show ?thesis using "1.prems"(3) it by (subst find_fwhm_loop.simps) simp
  qed
qed

lemma take1_drop: "n < length xs \<Longrightarrow> take (Suc 0) (drop n xs) = [xs ! n]"
  by (simp add: take_Suc_conv_app_nth)

lemma search_image_201:
  assumes "length img = 201" and "length (img ! 100) = 201"
  shows "search_image img = [[img ! 100 ! 100]]"
proof -
  have "take (length img - 200) (drop 100 img) = [img ! 100]"
    using assms(1) take1_drop [of 100 img] by simp
  moreover have "take (length (img ! 100) - 200) (drop 100 (img ! 100)) = [img ! 100 ! 100]"
    using assms(2) take1_drop [of 100 "img ! 100"] by simp
  ultimately show ?thesis by (simp add: search_image_def)
qed

lemma np_max_single: "np_max [[v]] = Inr v"
  by (simp add: np_max_def)

lemma first_where_single: "first_where [[v]] v = Some (0, 0)"
  by (simp add: first_where_def)

lemma slice_bound_201: "slice_bound 201 0 = 0" "slice_bound 201 200 = 200"
  by (simp_all add: slice_bound_def)

lemma rescan_201:
  assumes "length img = 201" and "length (img ! 100) = 201" and "count \<le> 100"
  shows "rescan img 100 100 100 count =
     Inr (Break \<lparr>res_fwhm = 0, res_im_sig = 0, res_image = zero_cutout img 100 100 100,
                  res_count = count, res_exit = Below_noise_floor\<rparr>)"
proof -
  let ?z = "zero_cutout img 100 100 100"
  have l: "length ?z = 201" using assms(1) by (simp add: length_zero_cutout)
  have lr: "length (?z ! 100) = 201" using assms(1,2) by (simp add: row_length_zero_cutout)
  have px: "?z ! 100 ! 100 = 0"
    using assms(1,2) by (simp add: pixel_zero_cutout slice_bound_201)
  have "search_image ?z = [[0]]"
    using search_image_201 [OF l lr] px by simp
  then show ?thesis using assms(3) by (simp add: rescan_def Let_def np_max_single)
qed

lemma find_fwhm_saturated_201:
  assumes "length img = 201" and "length (img ! 100) = 201" and "50000 \<le> img ! 100 ! 100"
  shows "find_fwhm scm fit g img 100 =
     Inr \<lparr>res_fwhm = 0, res_im_sig = 0, res_image = zero_cutout img 100 100 100,
          res_count = 1, res_exit = Below_noise_floor\<rparr>"
proof -
  have s: "search_image img = [[img ! 100 ! 100]]" by (rule search_image_201 [OF assms(1,2)])
  have it: "iteration fit g (scm img) 100 img 0 (img ! 100 ! 100) = rescan img 100 100 100 1"
    using assms(3) by (simp add: iteration_def s first_where_single)
  have "find_fwhm_loop fit g (scm img) 100 img 0 (img ! 100 ! 100) =
     Inr \<lparr>res_fwhm = 0, res_im_sig = 0, res_image = zero_cutout img 100 100 100,
          res_count = 1, res_exit = Below_noise_floor\<rparr>"
    using assms(3) by (subst find_fwhm_loop.simps) (simp add: it rescan_201 [OF assms(1,2)])
  then show ?thesis by (simp add: find_fwhm_def s np_max_single)
qed

lemma star201_shape: "length star201 = 201" "length (star201 ! 100) = 201" "star201 ! 100 ! 100 = 60000"
  by (simp_all add: star201_def)

lemma star201_corner: "star201 ! 0 ! 0 = 100"
  by (simp add: star201_def)

lemma star201_zeroed:
  "zero_cutout star201 100 100 100 ! 100 ! 100 = 0" "zero_cutout star201 100 100 100 ! 0 ! 0 = 0"
  by (simp_all add: pixel_zero_cutout star201_def slice_bound_201)

lemma find_fwhm_total:
  "(concat (search_image img) = [] \<and> find_fwhm scm fit g img sz = Inl ValueError) \<or>
   (concat (search_image img) \<noteq> [] \<and> Max (set (concat (search_image img))) < 0 \<and>
      find_fwhm scm fit g img sz = Inl UnboundLocalError) \<or>
   (\<exists>res. find_fwhm scm fit g img sz = Inr res \<and> 1 \<le> res_count res \<and> res_count res \<le> 101 \<and>
      exit_ok res)"
proof (cases "concat (search_image img) = []")
  case True
  then show ?thesis by (simp add: find_fwhm_def np_max_def)
next
  case ne: False
  define M where "M = Max (set (concat (search_image img)))"
  have nm: "np_max (search_image img) = Inr M"
    unfolding np_max_def M_def using ne by (simp only: if_False)
  have fw: "find_fwhm scm fit g img sz = find_fwhm_loop fit g (scm img) sz img 0 M"
    by (simp add: find_fwhm_def nm)
  show ?thesis
  proof (cases "M < 0")
    case True
    then have "find_fwhm_loop fit g (scm img) sz img 0 M = Inl UnboundLocalError"
      by (subst find_fwhm_loop.simps) simp
    then have "find_fwhm scm fit g img sz = Inl UnboundLocalError" by (simp only: fw)
    then show ?thesis using ne True unfolding M_def by blast
  next
    case False
    then have m0: "0 \<le> M" by simp
    from loop_total [OF ne M_def m0, of 0 fit g "scm img" sz]
    obtain res where "find_fwhm_loop fit g (scm img) sz img 0 M = Inr res"
      "0 < res_count res" "res_count res \<le> 101" "exit_ok res" by auto
    then have "find_fwhm scm fit g img sz = Inr res \<and> 1 \<le> res_count res \<and>
        res_count res \<le> 101 \<and> exit_ok res"
      by (simp add: fw)
    then show ?thesis by blast
  qed
qed

lemma iteration_counts:
  "case iteration fit g med sz img count max_peak of
     Inl e \<Rightarrow> True
   | Inr (Break res) \<Rightarrow> res_count res = count + 1
   | Inr (Again img' count' mp') \<Rightarrow> count' = count + 1 \<and> count' \<le> 100"
  by (auto simp: iteration_def rescan_def Let_def split: sum.splits option.splits loop_step.splits if_splits)

text \<open>
  Claim C10. For every input image the loop of \<open>find_fwhm\<close> terminates: the recursion of
  \<open>find_fwhm_loop\<close> is well founded on \<open>101 - count\<close>. Every pass, on a saturated peak
  or not, leaves with \<open>count\<close> one higher, and goes on to another pass only while that
  count is at most 100. So every call returns: with ValueError when the search region
  is empty, with UnboundLocalError when its maximum is negative and the loop is never
  entered, and otherwise with a result after at least 1 and at most 101 passes, ended
  by an accepted fit, by the counter check or by the noise-floor check.
\<close>

theorem find_fwhm_terminates:
  "((concat (search_image img) = [] \<and> find_fwhm scm fit g img sz = Inl ValueError) \<or>
    (concat (search_image img) \<noteq> [] \<and> Max (set (concat (search_image img))) < 0 \<and>
       find_fwhm scm fit g img sz = Inl UnboundLocalError) \<or>
    (\<exists>res. find_fwhm scm fit g img sz = Inr res \<and> 1 \<le> res_count res \<and> res_count res \<le> 101 \<and>
       exit_ok res))
   \<and> (case iteration fit g med sz img' count max_peak of
         Inl e \<Rightarrow> True
       | Inr (Break res) \<Rightarrow> res_count res = count + 1
       | Inr (Again img'' count' max_peak') \<Rightarrow> count' = count + 1 \<and> count' \<le> 100)"
  using find_fwhm_total [where img = img and scm = scm and fit = fit and g = g and sz = sz]
    iteration_counts [where fit = fit and g = g and med = med and sz = sz and img = img'
      and count = count and max_peak = max_peak]
  by (rule conjI)

text \<open>
  Claim C4. The claim says that \<open>find_fwhm\<close> leaves every pixel of the caller's image as
  it was. The code zeroes the cutout of every rejected candidate in the array it was
  given, where \<open>bkg_sub\<close> works on a deep copy. On the frame \<open>star201\<close> (level 100, one
  saturated pixel of 60000 in the middle) the call returns (0, 0) and leaves the
  caller's array with 0 at (100, 100) and at (0, 0), where it held 60000 and 100.
\<close>

theorem find_fwhm_zeroes_caller_image:
  "find_fwhm (\<lambda>a. 100) (\<lambda>star sz med. None) 2.3548200450309493 star201 100
     = Inr \<lparr>res_fwhm = 0, res_im_sig = 0, res_image = zero_cutout star201 100 100 100,
            res_count = 1, res_exit = Below_noise_floor\<rparr>
   \<and> zero_cutout star201 100 100 100 ! 100 ! 100 = 0 \<and> star201 ! 100 ! 100 = 60000
   \<and> zero_cutout star201 100 100 100 ! 0 ! 0 = 0 \<and> star201 ! 0 ! 0 = 100"
  using find_fwhm_saturated_201 [where img = star201 and scm = "\<lambda>a. 100"
      and fit = "\<lambda>star sz med. None" and g = "2.3548200450309493"]
  by (simp add: star201_shape star201_corner star201_zeroed)

subsection \<open>A run that spends the whole budget on saturated peaks\<close>





















end
